theory Spec2Isabelle
  imports Main
begin

section \<open>Python values: exceptions, indexing, ranges, decimal text\<close>

text \<open>
  The exceptions the encoder can raise: an out-of-range subscript, and
  \<^verbatim>\<open>as_long\<close> called on a term that is not a numeral.
\<close>

datatype exn = IndexError | AttributeError

definition bind_res :: "exn + 'a \<Rightarrow> ('a \<Rightarrow> exn + 'b) \<Rightarrow> exn + 'b" where
  "bind_res r f = (case r of Inl e \<Rightarrow> Inl e | Inr x \<Rightarrow> f x)"

text \<open>A list comprehension whose element expression may raise: the first exception wins.\<close>

fun try_map :: "('a \<Rightarrow> exn + 'b) \<Rightarrow> 'a list \<Rightarrow> exn + 'b list" where
  "try_map f [] = Inr []"
| "try_map f (x # xs) =
     (case f x of
        Inl e \<Rightarrow> Inl e
      | Inr y \<Rightarrow> (case try_map f xs of Inl e \<Rightarrow> Inl e | Inr ys \<Rightarrow> Inr (y # ys)))"

text \<open>\<^verbatim>\<open>xs[i]\<close>: a negative index counts from the end, anything else out of range raises.\<close>

definition getitem :: "'a list \<Rightarrow> int \<Rightarrow> exn + 'a" where
  "getitem xs i =
     (if 0 \<le> i \<and> i < int (length xs) then Inr (xs ! nat i)
      else if i < 0 \<and> - int (length xs) \<le> i then Inr (xs ! nat (int (length xs) + i))
      else Inl IndexError)"

text \<open>\<^verbatim>\<open>xs[i][j]\<close>\<close>

definition getitem2 :: "'a list list \<Rightarrow> int \<Rightarrow> int \<Rightarrow> exn + 'a" where
  "getitem2 xs i j = bind_res (getitem xs i) (\<lambda>row. getitem row j)"

text \<open>\<^verbatim>\<open>range(a, b)\<close>; \<^verbatim>\<open>range(b)\<close> is \<open>py_range 0 b\<close>.\<close>

definition py_range :: "int \<Rightarrow> int \<Rightarrow> int list" where
  "py_range a b = [a..b - 1]"

text \<open>
  \<^verbatim>\<open>[... for i in range(n) for j in range(n)]\<close> visits the pairs row by row.
\<close>

definition positions :: "int \<Rightarrow> (int \<times> int) list" where
  "positions n = concat (map (\<lambda>i. map (\<lambda>j. (i, j)) (py_range 0 n)) (py_range 0 n))"

text \<open>\<^verbatim>\<open>str\<close> of an integer, as an f-string renders it.\<close>

function str_nat :: "nat \<Rightarrow> string" where
  "str_nat n = (if n < 10 then [''0123456789'' ! n]
                else str_nat (n div 10) @ [''0123456789'' ! (n mod 10)])"
  by pat_completeness auto
termination
  by (relation "measure id") auto

declare str_nat.simps [simp del]

definition str_int :: "int \<Rightarrow> string" where
  "str_int i = (if i < 0 then ''-'' @ str_nat (nat (- i)) else str_nat (nat i))"

text \<open>\<^verbatim>\<open>str\<close> of a list of integers: \<^verbatim>\<open>[5, 6, 1, 10]\<close>.\<close>

fun join_comma :: "string list \<Rightarrow> string" where
  "join_comma [] = []"
| "join_comma [s] = s"
| "join_comma (s # t # ss) = s @ '', '' @ join_comma (t # ss)"

definition str_list :: "int list \<Rightarrow> string" where
  "str_list xs = ''['' @ join_comma (map str_int xs) @ '']''"

section \<open>The solver's terms\<close>

text \<open>
  The fragment of Z3's term language the encoder builds. \<open>IntConst x\<close> is
  \<^verbatim>\<open>Int(x)\<close>: Z3 identifies an integer constant by its name, so two calls that
  build \<^verbatim>\<open>Int('cell_0_0')\<close> speak of the same unknown. \<open>Ge a b\<close> is
  \<^verbatim>\<open>a >= b\<close>, which is what Python makes of \<^verbatim>\<open>1 <= x\<close> for a Z3 term \<open>x\<close>
  (the reflected comparison). \<open>If_then c a b\<close> is \<^verbatim>\<open>If(c, a, b)\<close>.
\<close>

datatype expr = IntConst string | IntVal int | Add expr expr | Sum "expr list"

datatype formula =
    BoolVal bool
  | Ge expr expr
  | Le expr expr
  | Eq expr expr
  | And formula formula
  | If_then formula formula formula

fun eval :: "(string \<Rightarrow> int) \<Rightarrow> expr \<Rightarrow> int" where
  "eval a (IntConst x) = a x"
| "eval a (IntVal k) = k"
| "eval a (Add s t) = eval a s + eval a t"
| "eval a (Sum ts) = sum_list (map (eval a) ts)"

fun holds :: "(string \<Rightarrow> int) \<Rightarrow> formula \<Rightarrow> bool" where
  "holds a (BoolVal b) = b"
| "holds a (Ge s t) = (eval a s \<ge> eval a t)"
| "holds a (Le s t) = (eval a s \<le> eval a t)"
| "holds a (Eq s t) = (eval a s = eval a t)"
| "holds a (And p q) = (holds a p \<and> holds a q)"
| "holds a (If_then c p q) = (if holds a c then holds a p else holds a q)"

fun consts_expr :: "expr \<Rightarrow> string list" where
  "consts_expr (IntConst x) = [x]"
| "consts_expr (IntVal k) = []"
| "consts_expr (Add s t) = consts_expr s @ consts_expr t"
| "consts_expr (Sum ts) = concat (map consts_expr ts)"

fun consts_of :: "formula \<Rightarrow> string list" where
  "consts_of (BoolVal b) = []"
| "consts_of (Ge s t) = consts_expr s @ consts_expr t"
| "consts_of (Le s t) = consts_expr s @ consts_expr t"
| "consts_of (Eq s t) = consts_expr s @ consts_expr t"
| "consts_of (And p q) = consts_of p @ consts_of q"
| "consts_of (If_then c p q) = consts_of c @ consts_of p @ consts_of q"

definition satisfies :: "(string \<Rightarrow> int) \<Rightarrow> formula list \<Rightarrow> bool" where
  "satisfies a fs = list_all (holds a) fs"

definition satisfiable :: "formula list \<Rightarrow> bool" where
  "satisfiable fs = (\<exists>a. satisfies a fs)"

section \<open>The solver\<close>

text \<open>
  Z3 is outside the repository, so it is a parameter of the model: \<open>check\<close> is the
  verdict of \<^verbatim>\<open>solver.check()\<close> on the assertions made so far, \<open>model\<close> the
  model \<^verbatim>\<open>solver.model()\<close> then gives, \<open>sexpr\<close> the text of \<^verbatim>\<open>model.sexpr()\<close>.
  A model binds some constants to integers; \<^verbatim>\<open>model.evaluate\<close> leaves a constant
  it does not bind as it is.
\<close>

datatype check_sat_result = sat | unsat | unknown

type_synonym model_ref = "string \<rightharpoonup> int"

record z3 =
  check :: "formula list \<Rightarrow> check_sat_result"
  model :: "formula list \<Rightarrow> model_ref"
  sexpr :: "model_ref \<Rightarrow> string"

definition str_result :: "check_sat_result \<Rightarrow> string" where
  "str_result r = (case r of sat \<Rightarrow> ''sat'' | unsat \<Rightarrow> ''unsat'' | unknown \<Rightarrow> ''unknown'')"

text \<open>
  \<^verbatim>\<open>model.evaluate(t).as_long()\<close>: the value of \<open>t\<close> when the model binds every
  constant of \<open>t\<close>; otherwise the evaluated term is not a numeral and
  \<^verbatim>\<open>as_long\<close> is missing.
\<close>

fun evaluate_as_long :: "model_ref \<Rightarrow> expr \<Rightarrow> exn + int" where
  "evaluate_as_long m (IntConst x) =
     (case m x of None \<Rightarrow> Inl AttributeError | Some k \<Rightarrow> Inr k)"
| "evaluate_as_long m (IntVal k) = Inr k"
| "evaluate_as_long m (Add s t) =
     bind_res (evaluate_as_long m s) (\<lambda>x. bind_res (evaluate_as_long m t) (\<lambda>y. Inr (x + y)))"
| "evaluate_as_long m (Sum ts) =
     foldr (\<lambda>t r. bind_res (evaluate_as_long m t) (\<lambda>x. bind_res r (\<lambda>y. Inr (x + y))))
       ts (Inr 0)"

text \<open>The assignment a model stands for: a constant it does not bind reads 0.\<close>

definition completion :: "model_ref \<Rightarrow> string \<Rightarrow> int" where
  "completion m x = (case m x of None \<Rightarrow> 0 | Some k \<Rightarrow> k)"

text \<open>
  What the encoder relies on. A solver is sound when the model of a \<open>sat\<close> verdict
  satisfies every assertion; it decides an assertion list when its verdict there is not
  \<open>unknown\<close> and an \<open>unsat\<close> verdict is right.
\<close>

definition model_sound :: "z3 \<Rightarrow> bool" where
  "model_sound s = (\<forall>fs. check s fs = sat \<longrightarrow> satisfies (completion (model s fs)) fs)"

definition decides :: "z3 \<Rightarrow> formula list \<Rightarrow> bool" where
  "decides s fs = (check s fs \<noteq> unknown \<and> (check s fs = unsat \<longrightarrow> \<not> satisfiable fs))"

text \<open>
  A solver that only ever proposes one fixed assignment: \<open>sat\<close> with that assignment
  when it binds every constant of the assertions and satisfies them, \<open>unknown\<close>
  otherwise.
\<close>

definition replay :: "(string \<times> int) list \<Rightarrow> z3" where
  "replay al =
     \<lparr> check = (\<lambda>fs. if list_all (\<lambda>f. list_all (\<lambda>x. map_of al x \<noteq> None) (consts_of f)) fs
                        \<and> satisfies (completion (map_of al)) fs
                     then sat else unknown),
       model = (\<lambda>fs. map_of al),
       sexpr = (\<lambda>m. []) \<rparr>"

section \<open>The encoder\<close>

text \<open>
  The module keeps one solver for all calls (\<^verbatim>\<open>solver = Solver()\<close> at import), so
  its assertions are state that every call reads and extends; the text printed is
  state too.
\<close>

record world =
  solver :: "formula list"
  stdout :: "string list"

definition solver_add :: "formula list \<Rightarrow> world \<Rightarrow> world" where
  "solver_add fs w = w\<lparr>solver := solver w @ fs\<rparr>"

definition print :: "string \<Rightarrow> world \<Rightarrow> world" where
  "print s w = w\<lparr>stdout := stdout w @ [s]\<rparr>"

definition cell_name :: "int \<Rightarrow> int \<Rightarrow> string" where
  "cell_name i j = ''cell_'' @ str_int i @ ''_'' @ str_int j"

definition square_of :: "int \<Rightarrow> expr list list" where
  "square_of grid_size =
     map (\<lambda>i. map (\<lambda>j. IntConst (cell_name i j)) (py_range 0 grid_size)) (py_range 0 grid_size)"

definition constraints :: "expr list list \<Rightarrow> int \<Rightarrow> exn + formula list" where
  "constraints square grid_size =
     try_map (\<lambda>(i, j).
         bind_res (getitem2 square i j) (\<lambda>x.
         bind_res (getitem2 square i j) (\<lambda>y.
         Inr (And (Ge x (IntVal 1)) (Le y (IntVal (grid_size ^ 2)))))))
       (positions grid_size)"

definition magic_constant :: "expr list list \<Rightarrow> exn + expr" where
  "magic_constant square = bind_res (getitem square 0) (\<lambda>row. Inr (Sum row))"

definition row_constraints :: "expr list list \<Rightarrow> int \<Rightarrow> expr \<Rightarrow> exn + formula list" where
  "row_constraints square grid_size mc =
     try_map (\<lambda>i. bind_res (getitem square i) (\<lambda>row. Inr (Eq (Sum row) mc)))
       (py_range 0 grid_size)"

definition column_constraints :: "expr list list \<Rightarrow> int \<Rightarrow> expr \<Rightarrow> exn + formula list" where
  "column_constraints square grid_size mc =
     try_map (\<lambda>i.
         bind_res (try_map (\<lambda>j. getitem2 square j i) (py_range 0 grid_size)) (\<lambda>col.
         Inr (Eq (Sum col) mc)))
       (py_range 0 grid_size)"

definition diagonal_constraints :: "expr list list \<Rightarrow> int \<Rightarrow> expr \<Rightarrow> exn + formula list" where
  "diagonal_constraints square grid_size mc =
     bind_res (try_map (\<lambda>i. getitem2 square i i) (py_range 0 grid_size)) (\<lambda>d1.
     bind_res (try_map (\<lambda>i. getitem2 square (grid_size - i - 1) i) (py_range 0 grid_size)) (\<lambda>d2.
     Inr [Eq (Sum d1) mc, Eq (Sum d2) mc]))"

definition associative_sum :: expr where
  "associative_sum = IntConst ''associative_sum''"

definition associative_row_constraints :: "expr list list \<Rightarrow> int \<Rightarrow> exn + formula list" where
  "associative_row_constraints square grid_size =
     try_map (\<lambda>i.
         bind_res (getitem2 square 0 i) (\<lambda>x.
         bind_res (getitem2 square (grid_size - 1) (grid_size - i - 1)) (\<lambda>y.
         Inr (Eq (Add x y) associative_sum))))
       (py_range 0 grid_size)"

definition associative_column_constraints :: "expr list list \<Rightarrow> int \<Rightarrow> exn + formula list" where
  "associative_column_constraints square grid_size =
     try_map (\<lambda>i.
         bind_res (getitem2 square i 0) (\<lambda>x.
         bind_res (getitem2 square (grid_size - i - 1) (grid_size - 1)) (\<lambda>y.
         Inr (Eq (Add x y) associative_sum))))
       (py_range 1 (grid_size - 1))"

text \<open>Lines 18 to 57: everything handed to the first \<^verbatim>\<open>solver.add\<close>, in its order.\<close>

definition magic_constraints :: "int \<Rightarrow> exn + formula list" where
  "magic_constraints grid_size =
     (let square = square_of grid_size in
      bind_res (constraints square grid_size) (\<lambda>cs.
      bind_res (magic_constant square) (\<lambda>mc.
      bind_res (row_constraints square grid_size mc) (\<lambda>rs.
      bind_res (column_constraints square grid_size mc) (\<lambda>cols.
      bind_res (diagonal_constraints square grid_size mc) (\<lambda>ds.
      bind_res (associative_row_constraints square grid_size) (\<lambda>ars.
      bind_res (associative_column_constraints square grid_size) (\<lambda>acs.
      Inr (cs @ rs @ cols @ ds @ ars @ acs)))))))))"

definition incomplete_square_constraints ::
  "expr list list \<Rightarrow> int \<Rightarrow> int list list \<Rightarrow> exn + formula list" where
  "incomplete_square_constraints square grid_size incomplete_square =
     try_map (\<lambda>(i, j).
         bind_res (getitem2 incomplete_square i j) (\<lambda>g.
         bind_res (getitem2 square i j) (\<lambda>x.
         bind_res (getitem2 incomplete_square i j) (\<lambda>g'.
         Inr (If_then (BoolVal (g \<noteq> 0)) (Eq x (IntVal g')) (BoolVal True))))))
       (positions grid_size)"

text \<open>Line 71: the grid read back from the model.\<close>

definition magic_square_solution :: "model_ref \<Rightarrow> expr list list \<Rightarrow> int \<Rightarrow> exn + int list list" where
  "magic_square_solution m square grid_size =
     try_map (\<lambda>i.
         try_map (\<lambda>j. bind_res (getitem2 square i j) (evaluate_as_long m)) (py_range 0 grid_size))
       (py_range 0 grid_size)"

text \<open>
  The result is the exception raised, or the value returned (\<open>None\<close> for Python's
  \<^verbatim>\<open>None\<close>), together with the world the call leaves behind: an exception does
  not undo the assertions already added.
\<close>

definition complete_magic_square ::
  "z3 \<Rightarrow> int \<Rightarrow> int list list \<Rightarrow> world \<Rightarrow> (exn + int list list option) \<times> world" where
  "complete_magic_square s grid_size incomplete_square w =
     (case magic_constraints grid_size of
        Inl e \<Rightarrow> (Inl e, w)
      | Inr cs \<Rightarrow>
          (let w1 = solver_add cs w in
           case incomplete_square_constraints (square_of grid_size) grid_size incomplete_square of
             Inl e \<Rightarrow> (Inl e, w1)
           | Inr gs \<Rightarrow>
               (let w2 = solver_add gs w1 in
                if check s (solver w2) = sat then
                  (let m = model s (solver w2) in
                   case magic_square_solution m (square_of grid_size) grid_size of
                     Inl e \<Rightarrow> (Inl e, w2)
                   | Inr sol \<Rightarrow>
                       (let w3 = print (''Satisfiability: '' @ str_result (check s (solver w2))) w2;
                            w4 = print (''SMT-LIB2 format:  '' @ sexpr s m) w3
                        in (Inr (Some sol), w4)))
                else (Inr None, w2))))"

section \<open>The script\<close>

text \<open>
  Lines 91 to 99 for a given size and grid. \<^verbatim>\<open>if magic_square_solution:\<close> takes
  the second branch for \<^verbatim>\<open>None\<close> and for an empty list.
\<close>

fun print_rows :: "int list list \<Rightarrow> world \<Rightarrow> world" where
  "print_rows [] w = w"
| "print_rows (row # rows) w = print_rows rows (print (str_list row) w)"

definition script :: "z3 \<Rightarrow> int \<Rightarrow> int list list \<Rightarrow> world \<Rightarrow> (exn + unit) \<times> world" where
  "script s grid_size incomplete_square w =
     (case complete_magic_square s grid_size incomplete_square w of
        (Inl e, w1) \<Rightarrow> (Inl e, w1)
      | (Inr None, w1) \<Rightarrow>
          (Inr (), print (''No solution found for '' @ str_int grid_size @ ''x''
                           @ str_int grid_size @ '' Magic Square.'') w1)
      | (Inr (Some sol), w1) \<Rightarrow>
          (if sol \<noteq> [] then
             (Inr (), print_rows sol
                (print (''Magic Square ('' @ str_int grid_size @ ''x'' @ str_int grid_size @ ''):'') w1))
           else
             (Inr (), print (''No solution found for '' @ str_int grid_size @ ''x''
                              @ str_int grid_size @ '' Magic Square.'') w1)))"

text \<open>Lines 82 to 88: the size and the grid the module runs on, from a fresh solver.\<close>

definition grid_size_main :: int where
  "grid_size_main = 4"

definition incomplete_square_main :: "int list list" where
  "incomplete_square_main = [[0, 0, 1, 0], [0, 5, 0, 0], [0, 0, 0, 0], [0, 0, 0, 6]]"

definition fresh :: world where
  "fresh = \<lparr>solver = [], stdout = []\<rparr>"

definition main :: "z3 \<Rightarrow> (exn + unit) \<times> world" where
  "main s = script s grid_size_main incomplete_square_main fresh"

text \<open>The grid and the associative sum the source records as its own output.\<close>

definition recorded_output :: "int list list" where
  "recorded_output = [[5, 6, 1, 10], [6, 5, 10, 1], [10, 1, 6, 5], [1, 10, 5, 6]]"

definition recorded_model :: "(string \<times> int) list" where
  "recorded_model =
     [(''cell_0_1'', 6), (''cell_2_1'', 1), (''cell_2_3'', 5), (''cell_0_3'', 10),
      (''cell_1_3'', 1), (''cell_1_2'', 10), (''cell_3_1'', 10), (''cell_3_3'', 6),
      (''cell_2_2'', 6), (''associative_sum'', 11), (''cell_0_2'', 1), (''cell_1_0'', 6),
      (''cell_2_0'', 10), (''cell_1_1'', 5), (''cell_3_0'', 1), (''cell_3_2'', 5),
      (''cell_0_0'', 5)]"

section \<open>Sums over a grid\<close>

text \<open>The sums the magic-square properties speak of, for a grid given as a list of rows.\<close>

definition row_sum :: "int list list \<Rightarrow> nat \<Rightarrow> int" where
  "row_sum g i = sum_list (g ! i)"

definition column_sum :: "int list list \<Rightarrow> nat \<Rightarrow> int" where
  "column_sum g j = sum_list (map (\<lambda>row. row ! j) g)"

definition diagonal_sum :: "int list list \<Rightarrow> int" where
  "diagonal_sum g = (\<Sum>i\<leftarrow>[0..<length g]. g ! i ! i)"

definition antidiagonal_sum :: "int list list \<Rightarrow> int" where
  "antidiagonal_sum g = (\<Sum>i\<leftarrow>[0..<length g]. g ! (length g - i - 1) ! i)"

text \<open>The unknown of the cell in row \<open>i\<close>, column \<open>j\<close>.\<close>

abbreviation cell :: "int \<Rightarrow> int \<Rightarrow> expr" where
  "cell i j \<equiv> IntConst (cell_name i j)"

text \<open>A model of the size-1 constraints.\<close>

definition model_1 :: "(string \<times> int) list" where
  "model_1 = [(''cell_0_0'', 1), (''associative_sum'', 2)]"

text \<open>A model of the size-2 constraints with 2 in every cell.\<close>

definition model_2 :: "(string \<times> int) list" where
  "model_2 = [(''cell_0_0'', 2), (''cell_0_1'', 2), (''cell_1_0'', 2), (''cell_1_1'', 2),
              (''associative_sum'', 4)]"

section \<open>Exceptions, ranges and subscripts\<close>


lemma bind_res_simps [simp]:
  "bind_res (Inr x) f = f x" "bind_res (Inl e) f = Inl e"
  by (simp_all add: bind_res_def)

lemma bind_res_eq_Inr:
  "bind_res r f = Inr y \<longleftrightarrow> (\<exists>x. r = Inr x \<and> f x = Inr y)"
  by (cases r) simp_all

lemma try_map_Inr_map:
  "(\<And>x. x \<in> set xs \<Longrightarrow> f x = Inr (g x)) \<Longrightarrow> try_map f xs = Inr (map g xs)"
  by (induction xs) simp_all

lemma try_map_InrD:
  "try_map f xs = Inr ys \<Longrightarrow> list_all2 (\<lambda>x y. f x = Inr y) xs ys"
  by (induction xs arbitrary: ys) (auto split: sum.splits)

lemma py_range_nat: "py_range 0 (int m) = map int [0..<m]"
proof (induction m)
  case 0
  show ?case by (simp add: py_range_def)
next
  case (Suc m)
  have "[0..int (Suc m) - 1] = [0..int m - 1] @ [int m]"
    using upto_rec2 [of 0 "int m"] by simp
  with Suc show ?case by (simp add: py_range_def)
qed

lemma py_range_0: "py_range 0 n = map int [0..<nat n]"
proof (cases "0 \<le> n")
  case True
  then show ?thesis using py_range_nat [of "nat n"] by simp
next
  case False
  then show ?thesis by (simp add: py_range_def)
qed

lemma py_range_1: "py_range 1 n = map int [1..<nat n]"
proof (cases "1 \<le> n")
  case True
  have "py_range 0 n = 0 # py_range 1 n"
    using True by (simp add: py_range_def upto_rec1)
  moreover have "[0..<nat n] = 0 # [1..<nat n]"
    using True by (simp add: upt_rec)
  ultimately show ?thesis using py_range_0 [of n] by simp
next
  case False
  then show ?thesis by (simp add: py_range_def)
qed

lemma set_py_range [simp]: "set (py_range a b) = {a..<b}"
  by (auto simp: py_range_def)

lemma length_py_range [simp]: "length (py_range a b) = nat (b - a)"
  by (simp add: py_range_def)

lemma getitem_map_range:
  "0 \<le> i \<Longrightarrow> i < n \<Longrightarrow> getitem (map f (py_range 0 n)) i = Inr (f i)"
  by (simp add: getitem_def py_range_0)

lemma getitem_square:
  "0 \<le> i \<Longrightarrow> i < n \<Longrightarrow>
   getitem (square_of n) i = Inr (map (\<lambda>j. IntConst (cell_name i j)) (py_range 0 n))"
  unfolding square_of_def by (rule getitem_map_range)

lemma getitem2_square:
  "0 \<le> i \<Longrightarrow> i < n \<Longrightarrow> 0 \<le> j \<Longrightarrow> j < n \<Longrightarrow>
   getitem2 (square_of n) i j = Inr (IntConst (cell_name i j))"
  by (simp add: getitem2_def getitem_square getitem_map_range)

lemma set_positions [simp]: "set (positions n) = {0..<n} \<times> {0..<n}"
  by (auto simp: positions_def)


lemma constraints_square:
  "constraints (square_of n) n =
   Inr (map (\<lambda>(i, j). And (Ge (cell i j) (IntVal 1)) (Le (cell i j) (IntVal (n ^ 2))))
          (positions n))"
  unfolding constraints_def
  by (rule try_map_Inr_map) (auto simp: getitem2_square)

lemma magic_constant_square:
  "0 < n \<Longrightarrow> magic_constant (square_of n) = Inr (Sum (map (cell 0) (py_range 0 n)))"
  by (simp add: magic_constant_def getitem_square)

lemma magic_constant_empty:
  "n \<le> 0 \<Longrightarrow> magic_constant (square_of n) = Inl IndexError"
  by (simp add: magic_constant_def square_of_def getitem_def)

lemma row_constraints_square:
  "row_constraints (square_of n) n mc =
   Inr (map (\<lambda>i. Eq (Sum (map (cell i) (py_range 0 n))) mc) (py_range 0 n))"
  unfolding row_constraints_def
  by (rule try_map_Inr_map) (simp add: getitem_square)

lemma column_square:
  "0 \<le> i \<Longrightarrow> i < n \<Longrightarrow>
   try_map (\<lambda>j. getitem2 (square_of n) j i) (py_range 0 n) =
   Inr (map (\<lambda>j. cell j i) (py_range 0 n))"
  by (rule try_map_Inr_map) (simp add: getitem2_square)

lemma column_constraints_square:
  "column_constraints (square_of n) n mc =
   Inr (map (\<lambda>i. Eq (Sum (map (\<lambda>j. cell j i) (py_range 0 n))) mc) (py_range 0 n))"
  unfolding column_constraints_def
  by (rule try_map_Inr_map) (simp add: column_square)

lemma diagonal_constraints_square:
  "diagonal_constraints (square_of n) n mc =
   Inr [Eq (Sum (map (\<lambda>i. cell i i) (py_range 0 n))) mc,
        Eq (Sum (map (\<lambda>i. cell (n - i - 1) i) (py_range 0 n))) mc]"
proof -
  have "try_map (\<lambda>i. getitem2 (square_of n) i i) (py_range 0 n) =
        Inr (map (\<lambda>i. cell i i) (py_range 0 n))"
    by (rule try_map_Inr_map) (simp add: getitem2_square)
  moreover have "try_map (\<lambda>i. getitem2 (square_of n) (n - i - 1) i) (py_range 0 n) =
        Inr (map (\<lambda>i. cell (n - i - 1) i) (py_range 0 n))"
    by (rule try_map_Inr_map) (simp add: getitem2_square)
  ultimately show ?thesis by (simp add: diagonal_constraints_def)
qed

lemma associative_row_constraints_square:
  "associative_row_constraints (square_of n) n =
   Inr (map (\<lambda>i. Eq (Add (cell 0 i) (cell (n - 1) (n - i - 1))) associative_sum)
          (py_range 0 n))"
  unfolding associative_row_constraints_def
  by (rule try_map_Inr_map) (simp add: getitem2_square)

lemma associative_column_constraints_square:
  "associative_column_constraints (square_of n) n =
   Inr (map (\<lambda>i. Eq (Add (cell i 0) (cell (n - i - 1) (n - 1))) associative_sum)
          (py_range 1 (n - 1)))"
  unfolding associative_column_constraints_def
  by (rule try_map_Inr_map) (simp add: getitem2_square)

lemma magic_constraints_pos:
  "0 < n \<Longrightarrow> magic_constraints n =
   Inr (map (\<lambda>(i, j). And (Ge (cell i j) (IntVal 1)) (Le (cell i j) (IntVal (n ^ 2))))
          (positions n)
      @ map (\<lambda>i. Eq (Sum (map (cell i) (py_range 0 n))) (Sum (map (cell 0) (py_range 0 n))))
          (py_range 0 n)
      @ map (\<lambda>i. Eq (Sum (map (\<lambda>j. cell j i) (py_range 0 n))) (Sum (map (cell 0) (py_range 0 n))))
          (py_range 0 n)
      @ [Eq (Sum (map (\<lambda>i. cell i i) (py_range 0 n))) (Sum (map (cell 0) (py_range 0 n))),
         Eq (Sum (map (\<lambda>i. cell (n - i - 1) i) (py_range 0 n))) (Sum (map (cell 0) (py_range 0 n)))]
      @ map (\<lambda>i. Eq (Add (cell 0 i) (cell (n - 1) (n - i - 1))) associative_sum)
          (py_range 0 n)
      @ map (\<lambda>i. Eq (Add (cell i 0) (cell (n - i - 1) (n - 1))) associative_sum)
          (py_range 1 (n - 1)))"
  by (simp add: magic_constraints_def constraints_square magic_constant_square
      row_constraints_square column_constraints_square diagonal_constraints_square
      associative_row_constraints_square associative_column_constraints_square)

lemma magic_constraints_nonpos:
  "n \<le> 0 \<Longrightarrow> magic_constraints n = Inl IndexError"
  by (simp add: magic_constraints_def constraints_square magic_constant_empty)

lemma satisfies_append [simp]: "satisfies a (fs @ gs) \<longleftrightarrow> satisfies a fs \<and> satisfies a gs"
  by (simp add: satisfies_def)

lemma satisfies_map: "satisfies a (map f xs) \<longleftrightarrow> (\<forall>x \<in> set xs. holds a (f x))"
  by (simp add: satisfies_def list_all_iff)

lemma satisfies_Nil [simp]: "satisfies a []"
  by (simp add: satisfies_def)

lemma satisfies_Cons [simp]: "satisfies a (f # fs) \<longleftrightarrow> holds a f \<and> satisfies a fs"
  by (simp add: satisfies_def)


lemma sum_list_eval_map:
  "sum_list (map (eval a) (map (\<lambda>i. IntConst (f i)) xs)) = (\<Sum>i\<leftarrow>xs. a (f i))"
  by (simp add: comp_def)

lemma satisfies_range:
  "satisfies a (map (\<lambda>(i, j). And (Ge (cell i j) (IntVal 1)) (Le (cell i j) (IntVal (n ^ 2))))
          (positions n)) \<longleftrightarrow>
   (\<forall>i \<in> {0..<n}. \<forall>j \<in> {0..<n}. 1 \<le> a (cell_name i j) \<and> a (cell_name i j) \<le> n ^ 2)"
  unfolding satisfies_map by auto

lemma satisfies_magic_constraints:
  assumes "magic_constraints n = Inr cs"
  shows "satisfies a cs \<longleftrightarrow>
     (\<forall>i \<in> {0..<n}. \<forall>j \<in> {0..<n}. 1 \<le> a (cell_name i j) \<and> a (cell_name i j) \<le> n ^ 2)
   \<and> (\<forall>i \<in> {0..<n}. (\<Sum>j\<leftarrow>py_range 0 n. a (cell_name i j)) = (\<Sum>j\<leftarrow>py_range 0 n. a (cell_name 0 j)))
   \<and> (\<forall>i \<in> {0..<n}. (\<Sum>j\<leftarrow>py_range 0 n. a (cell_name j i)) = (\<Sum>j\<leftarrow>py_range 0 n. a (cell_name 0 j)))
   \<and> (\<Sum>i\<leftarrow>py_range 0 n. a (cell_name i i)) = (\<Sum>j\<leftarrow>py_range 0 n. a (cell_name 0 j))
   \<and> (\<Sum>i\<leftarrow>py_range 0 n. a (cell_name (n - i - 1) i)) = (\<Sum>j\<leftarrow>py_range 0 n. a (cell_name 0 j))
   \<and> (\<forall>i \<in> {0..<n}. a (cell_name 0 i) + a (cell_name (n - 1) (n - i - 1)) = a ''associative_sum'')
   \<and> (\<forall>i \<in> {1..<n - 1}. a (cell_name i 0) + a (cell_name (n - i - 1) (n - 1)) = a ''associative_sum'')"
proof -
  have n: "0 < n"
    using assms magic_constraints_nonpos [of n] by (cases "0 < n") simp_all
  have cs: "cs = map (\<lambda>(i, j). And (Ge (cell i j) (IntVal 1)) (Le (cell i j) (IntVal (n ^ 2))))
          (positions n)
      @ map (\<lambda>i. Eq (Sum (map (cell i) (py_range 0 n))) (Sum (map (cell 0) (py_range 0 n))))
          (py_range 0 n)
      @ map (\<lambda>i. Eq (Sum (map (\<lambda>j. cell j i) (py_range 0 n))) (Sum (map (cell 0) (py_range 0 n))))
          (py_range 0 n)
      @ [Eq (Sum (map (\<lambda>i. cell i i) (py_range 0 n))) (Sum (map (cell 0) (py_range 0 n))),
         Eq (Sum (map (\<lambda>i. cell (n - i - 1) i) (py_range 0 n))) (Sum (map (cell 0) (py_range 0 n)))]
      @ map (\<lambda>i. Eq (Add (cell 0 i) (cell (n - 1) (n - i - 1))) associative_sum)
          (py_range 0 n)
      @ map (\<lambda>i. Eq (Add (cell i 0) (cell (n - i - 1) (n - 1))) associative_sum)
          (py_range 1 (n - 1))"
    using assms magic_constraints_pos [OF n] by simp
  show ?thesis
    unfolding cs satisfies_append satisfies_range satisfies_Cons satisfies_Nil
    by (simp only: satisfies_map holds.simps eval.simps sum_list_eval_map set_py_range
        associative_sum_def satisfies_Nil simp_thms conj_assoc)
qed

lemma try_map_Inr_eq_map:
  "try_map f xs = Inr ys \<Longrightarrow> (\<And>x y. x \<in> set xs \<Longrightarrow> f x = Inr y \<Longrightarrow> y = g x) \<Longrightarrow>
   ys = map g xs"
  by (induction xs arbitrary: ys) (auto split: sum.splits)

lemma try_map_Inr_elem:
  "try_map f xs = Inr ys \<Longrightarrow> x \<in> set xs \<Longrightarrow> \<exists>y. f x = Inr y \<and> y \<in> set ys"
  by (induction xs arbitrary: ys) (auto split: sum.splits)

lemma complete_magic_square_Some:
  assumes "fst (complete_magic_square s n isq w) = Inr (Some sol)"
  obtains cs gs where
    "magic_constraints n = Inr cs"
    "incomplete_square_constraints (square_of n) n isq = Inr gs"
    "check s (solver w @ cs @ gs) = sat"
    "magic_square_solution (model s (solver w @ cs @ gs)) (square_of n) n = Inr sol"
  using assms
  by (auto simp: complete_magic_square_def solver_add_def Let_def
      split: sum.splits if_splits)

lemma magic_square_solution_Inr:
  assumes "magic_square_solution m (square_of n) n = Inr sol"
  shows "sol = map (\<lambda>i. map (\<lambda>j. completion m (cell_name i j)) (py_range 0 n)) (py_range 0 n)"
proof -
  have cellv: "y = completion m (cell_name i j)"
    if "i \<in> set (py_range 0 n)" "j \<in> set (py_range 0 n)"
      "bind_res (getitem2 (square_of n) i j) (evaluate_as_long m) = Inr y" for i j y
    using that by (auto simp: getitem2_square completion_def split: option.splits)
  have rowv: "row = map (\<lambda>j. completion m (cell_name i j)) (py_range 0 n)"
    if "i \<in> set (py_range 0 n)"
      "try_map (\<lambda>j. bind_res (getitem2 (square_of n) i j) (evaluate_as_long m)) (py_range 0 n)
       = Inr row" for i row
    using that(2) by (rule try_map_Inr_eq_map) (rule cellv [OF that(1)])
  show ?thesis
    using assms unfolding magic_square_solution_def
    by (rule try_map_Inr_eq_map) (rule rowv)
qed

lemma solution_nth:
  assumes "sol = map (\<lambda>i. map (\<lambda>j. v i j) (py_range 0 n)) (py_range 0 n)"
  shows "length sol = nat n"
    and "i < nat n \<Longrightarrow> length (sol ! i) = nat n"
    and "i < nat n \<Longrightarrow> j < nat n \<Longrightarrow> sol ! i ! j = v (int i) (int j)"
  using assms by (simp_all add: py_range_0)

lemma solution_row:
  assumes "sol = map (\<lambda>i. map (\<lambda>j. v i j) (py_range 0 n)) (py_range 0 n)"
  shows "i < nat n \<Longrightarrow> sol ! i = map (\<lambda>j. v (int i) j) (py_range 0 n)"
  using assms by (simp add: py_range_0)

lemma grid_sums:
  assumes sol: "sol = map (\<lambda>i. map (\<lambda>j. v i j) (py_range 0 n)) (py_range 0 n)"
  shows "i < nat n \<Longrightarrow> row_sum sol i = (\<Sum>j\<leftarrow>py_range 0 n. v (int i) j)"
    and "j < nat n \<Longrightarrow> column_sum sol j = (\<Sum>i\<leftarrow>py_range 0 n. v i (int j))"
    and "diagonal_sum sol = (\<Sum>i\<leftarrow>py_range 0 n. v i i)"
    and "antidiagonal_sum sol = (\<Sum>i\<leftarrow>py_range 0 n. v (n - i - 1) i)"
proof -
  show "i < nat n \<Longrightarrow> row_sum sol i = (\<Sum>j\<leftarrow>py_range 0 n. v (int i) j)"
    by (simp add: row_sum_def solution_row [OF sol])
  show "j < nat n \<Longrightarrow> column_sum sol j = (\<Sum>i\<leftarrow>py_range 0 n. v i (int j))"
    unfolding column_sum_def sol by (simp add: py_range_0 comp_def)
  have d: "map (\<lambda>i. sol ! i ! i) [0..<nat n] = map (\<lambda>i. v (int i) (int i)) [0..<nat n]"
    by (rule map_cong) (simp_all add: solution_nth [OF sol])
  show "diagonal_sum sol = (\<Sum>i\<leftarrow>py_range 0 n. v i i)"
    unfolding diagonal_sum_def solution_nth(1) [OF sol] d by (simp add: py_range_0 comp_def)
  have ad: "map (\<lambda>i. sol ! (nat n - i - 1) ! i) [0..<nat n]
      = map (\<lambda>i. v (n - int i - 1) (int i)) [0..<nat n]"
  proof (rule map_cong)
    fix i assume "i \<in> set [0..<nat n]"
    then have i: "i < nat n" by simp
    then have k: "int (nat n - i - 1) = n - int i - 1" by simp
    have "sol ! (nat n - i - 1) ! i = v (int (nat n - i - 1)) (int i)"
      using i by (intro solution_nth(3) [OF sol]) simp_all
    then show "sol ! (nat n - i - 1) ! i = v (n - int i - 1) (int i)"
      by (simp only: k)
  qed simp
  show "antidiagonal_sum sol = (\<Sum>i\<leftarrow>py_range 0 n. v (n - i - 1) i)"
    unfolding antidiagonal_sum_def solution_nth(1) [OF sol] ad by (simp add: py_range_0 comp_def)
qed

lemma magic_constraintsD:
  assumes cs: "magic_constraints n = Inr cs" and sat: "satisfies a cs"
  shows "0 \<le> i \<Longrightarrow> i < n \<Longrightarrow> 0 \<le> j \<Longrightarrow> j < n \<Longrightarrow>
           1 \<le> a (cell_name i j) \<and> a (cell_name i j) \<le> n ^ 2"
    and "0 \<le> i \<Longrightarrow> i < n \<Longrightarrow>
           (\<Sum>j\<leftarrow>py_range 0 n. a (cell_name i j)) = (\<Sum>j\<leftarrow>py_range 0 n. a (cell_name 0 j))"
    and "0 \<le> i \<Longrightarrow> i < n \<Longrightarrow>
           (\<Sum>j\<leftarrow>py_range 0 n. a (cell_name j i)) = (\<Sum>j\<leftarrow>py_range 0 n. a (cell_name 0 j))"
    and "(\<Sum>i\<leftarrow>py_range 0 n. a (cell_name i i)) = (\<Sum>j\<leftarrow>py_range 0 n. a (cell_name 0 j))"
    and "(\<Sum>i\<leftarrow>py_range 0 n. a (cell_name (n - i - 1) i))
           = (\<Sum>j\<leftarrow>py_range 0 n. a (cell_name 0 j))"
    and "0 \<le> i \<Longrightarrow> i < n \<Longrightarrow>
           a (cell_name 0 i) + a (cell_name (n - 1) (n - i - 1)) = a ''associative_sum''"
    and "1 \<le> i \<Longrightarrow> i < n - 1 \<Longrightarrow>
           a (cell_name i 0) + a (cell_name (n - i - 1) (n - 1)) = a ''associative_sum''"
proof -
  note facts = iffD1 [OF satisfies_magic_constraints [OF cs] sat]
  from facts have f1: "\<forall>i \<in> {0..<n}. \<forall>j \<in> {0..<n}. 1 \<le> a (cell_name i j) \<and> a (cell_name i j) \<le> n ^ 2"
    by (elim conjE)
  from facts have f2: "\<forall>i \<in> {0..<n}. (\<Sum>j\<leftarrow>py_range 0 n. a (cell_name i j)) = (\<Sum>j\<leftarrow>py_range 0 n. a (cell_name 0 j))"
    by (elim conjE)
  from facts have f3: "\<forall>i \<in> {0..<n}. (\<Sum>j\<leftarrow>py_range 0 n. a (cell_name j i)) = (\<Sum>j\<leftarrow>py_range 0 n. a (cell_name 0 j))"
    by (elim conjE)
  from facts have f6: "\<forall>i \<in> {0..<n}. a (cell_name 0 i) + a (cell_name (n - 1) (n - i - 1)) = a ''associative_sum''"
    by (elim conjE)
  from facts have f7: "\<forall>i \<in> {1..<n - 1}. a (cell_name i 0) + a (cell_name (n - i - 1) (n - 1)) = a ''associative_sum''"
    by (elim conjE)
  show "0 \<le> i \<Longrightarrow> i < n \<Longrightarrow> 0 \<le> j \<Longrightarrow> j < n \<Longrightarrow>
           1 \<le> a (cell_name i j) \<and> a (cell_name i j) \<le> n ^ 2"
    using bspec [OF f1, of i] by simp
  show "0 \<le> i \<Longrightarrow> i < n \<Longrightarrow>
           (\<Sum>j\<leftarrow>py_range 0 n. a (cell_name i j)) = (\<Sum>j\<leftarrow>py_range 0 n. a (cell_name 0 j))"
    using bspec [OF f2, of i] by simp
  show "0 \<le> i \<Longrightarrow> i < n \<Longrightarrow>
           (\<Sum>j\<leftarrow>py_range 0 n. a (cell_name j i)) = (\<Sum>j\<leftarrow>py_range 0 n. a (cell_name 0 j))"
    using bspec [OF f3, of i] by simp
  show "(\<Sum>i\<leftarrow>py_range 0 n. a (cell_name i i)) = (\<Sum>j\<leftarrow>py_range 0 n. a (cell_name 0 j))"
    using facts by (elim conjE)
  show "(\<Sum>i\<leftarrow>py_range 0 n. a (cell_name (n - i - 1) i))
           = (\<Sum>j\<leftarrow>py_range 0 n. a (cell_name 0 j))"
    using facts by (elim conjE)
  show "0 \<le> i \<Longrightarrow> i < n \<Longrightarrow>
           a (cell_name 0 i) + a (cell_name (n - 1) (n - i - 1)) = a ''associative_sum''"
    using bspec [OF f6, of i] by simp
  show "1 \<le> i \<Longrightarrow> i < n - 1 \<Longrightarrow>
           a (cell_name i 0) + a (cell_name (n - i - 1) (n - 1)) = a ''associative_sum''"
    using bspec [OF f7, of i] by simp
qed


lemma returned_solution:
  assumes sound: "model_sound s"
    and ret: "fst (complete_magic_square s n isq w) = Inr (Some sol)"
  obtains a cs gs where
    "0 < n"
    "magic_constraints n = Inr cs"
    "incomplete_square_constraints (square_of n) n isq = Inr gs"
    "satisfies a (solver w)" "satisfies a cs" "satisfies a gs"
    "sol = map (\<lambda>i. map (\<lambda>j. a (cell_name i j)) (py_range 0 n)) (py_range 0 n)"
proof -
  from ret obtain cs gs where
    cs: "magic_constraints n = Inr cs" and
    gs: "incomplete_square_constraints (square_of n) n isq = Inr gs" and
    chk: "check s (solver w @ cs @ gs) = sat" and
    sol: "magic_square_solution (model s (solver w @ cs @ gs)) (square_of n) n = Inr sol"
    by (rule complete_magic_square_Some)
  let ?a = "completion (model s (solver w @ cs @ gs))"
  have n: "0 < n"
    using cs magic_constraints_nonpos [of n] by (cases "0 < n") simp_all
  have all: "satisfies ?a (solver w @ cs @ gs)"
    using sound chk unfolding model_sound_def by blast
  have s1: "satisfies ?a (solver w)" and s2: "satisfies ?a cs" and s3: "satisfies ?a gs"
    using all by simp_all
  show ?thesis
    by (rule that [OF n cs gs s1 s2 s3 magic_square_solution_Inr [OF sol]])
qed

lemma model_sound_replay: "model_sound (replay al)"
  by (simp add: model_sound_def replay_def)

lemma getitem2_Inr:
  assumes "getitem2 xs i j = Inr g" "0 \<le> i" "0 \<le> j"
  shows "nat i < length xs \<and> nat j < length (xs ! nat i) \<and> g = xs ! nat i ! nat j"
  using assms
  by (auto simp: getitem2_def getitem_def bind_res_eq_Inr split: if_splits)

lemma incomplete_square_constraintsD:
  assumes gs: "incomplete_square_constraints (square_of n) n isq = Inr gs"
    and sat: "satisfies a gs"
    and i: "0 \<le> i" "i < n" and j: "0 \<le> j" "j < n"
  shows "nat i < length isq \<and> nat j < length (isq ! nat i)
    \<and> (isq ! nat i ! nat j \<noteq> 0 \<longrightarrow> a (cell_name i j) = isq ! nat i ! nat j)"
proof -
  have "(i, j) \<in> set (positions n)"
    using i j by simp
  with gs [unfolded incomplete_square_constraints_def] obtain y where
    y: "bind_res (getitem2 isq i j) (\<lambda>g.
         bind_res (getitem2 (square_of n) i j) (\<lambda>x.
         bind_res (getitem2 isq i j) (\<lambda>g'.
         Inr (If_then (BoolVal (g \<noteq> 0)) (Eq x (IntVal g')) (BoolVal True))))) = Inr y"
    and mem: "y \<in> set gs"
    by (fastforce dest: try_map_Inr_elem)
  from y obtain g where g: "getitem2 isq i j = Inr g"
    and yeq: "y = If_then (BoolVal (g \<noteq> 0)) (Eq (cell i j) (IntVal g)) (BoolVal True)"
    using i j by (auto simp: bind_res_eq_Inr getitem2_square)
  have "holds a y"
    using sat mem by (simp add: satisfies_def list_all_iff)
  then have "g \<noteq> 0 \<longrightarrow> a (cell_name i j) = g"
    by (simp add: yeq split: if_splits)
  with getitem2_Inr [OF g i(1) j(1)] show ?thesis by simp
qed

lemma getitem2_wf:
  assumes "nat n \<le> length isq" "\<forall>row \<in> set (take (nat n) isq). nat n \<le> length row"
    "0 \<le> i" "i < n" "0 \<le> j" "j < n"
  shows "getitem2 isq i j = Inr (isq ! nat i ! nat j)"
proof -
  have i: "nat i < length isq" using assms by simp
  have "isq ! nat i \<in> set (take (nat n) isq)"
    using assms i by (auto simp: in_set_conv_nth intro!: exI [of _ "nat i"])
  then have "nat n \<le> length (isq ! nat i)" using assms(2) by blast
  then have j: "nat j < length (isq ! nat i)" using assms by simp
  have "i < int (length isq)" "j < int (length (isq ! nat i))"
    using i j assms(3,5) by linarith+
  then show ?thesis
    using assms(3,5) by (simp add: getitem2_def getitem_def)
qed

lemma incomplete_square_constraints_wf:
  assumes "nat n \<le> length isq" "\<forall>row \<in> set (take (nat n) isq). nat n \<le> length row"
  shows "incomplete_square_constraints (square_of n) n isq =
    Inr (map (\<lambda>(i, j). If_then (BoolVal (isq ! nat i ! nat j \<noteq> 0))
                 (Eq (cell i j) (IntVal (isq ! nat i ! nat j))) (BoolVal True))
           (positions n))"
  unfolding incomplete_square_constraints_def
  by (rule try_map_Inr_map) (auto simp: getitem2_wf [OF assms] getitem2_square)

lemma solver_after:
  assumes "magic_constraints n = Inr cs"
    and "incomplete_square_constraints (square_of n) n isq = Inr gs"
  shows "solver (snd (complete_magic_square s n isq w)) = solver w @ cs @ gs"
  using assms
  by (simp add: complete_magic_square_def solver_add_def print_def Let_def split: sum.splits)

lemma solver_extends:
  "\<exists>fs. solver (snd (complete_magic_square s n isq w)) = solver w @ fs"
  by (simp add: complete_magic_square_def solver_add_def print_def Let_def split: sum.splits)

lemma complete_magic_square_not_sat:
  assumes "magic_constraints n = Inr cs"
    and "incomplete_square_constraints (square_of n) n isq = Inr gs"
    and "check s (solver w @ cs @ gs) \<noteq> sat"
  shows "complete_magic_square s n isq w = (Inr None, w\<lparr>solver := solver w @ cs @ gs\<rparr>)"
  using assms
  by (simp add: complete_magic_square_def solver_add_def Let_def)

lemma complete_magic_square_unsatisfiable:
  assumes "model_sound s"
    and "magic_constraints n = Inr cs"
    and "incomplete_square_constraints (square_of n) n isq = Inr gs"
    and "\<not> satisfiable (solver w @ cs @ gs)"
  shows "complete_magic_square s n isq w = (Inr None, w\<lparr>solver := solver w @ cs @ gs\<rparr>)"
proof -
  have "check s (solver w @ cs @ gs) \<noteq> sat"
    using assms(1,4) unfolding model_sound_def satisfiable_def by blast
  with assms(2,3) show ?thesis by (rule complete_magic_square_not_sat)
qed

text \<open>
  A cell the model leaves unbound reads 0, below the bound 1 asserted for it: a model
  that satisfies the constraints binds every cell.
\<close>

lemma magic_square_solution_sound:
  assumes cs: "magic_constraints n = Inr cs"
    and sat: "satisfies (completion m) cs"
  shows "magic_square_solution m (square_of n) n =
    Inr (map (\<lambda>i. map (\<lambda>j. completion m (cell_name i j)) (py_range 0 n)) (py_range 0 n))"
proof -
  have cellv: "bind_res (getitem2 (square_of n) i j) (evaluate_as_long m)
      = Inr (completion m (cell_name i j))"
    if "i \<in> set (py_range 0 n)" "j \<in> set (py_range 0 n)" for i j
  proof -
    have "1 \<le> completion m (cell_name i j) \<and> completion m (cell_name i j) \<le> n ^ 2"
      using that by (intro magic_constraintsD(1) [OF cs sat]) simp_all
    then have "m (cell_name i j) \<noteq> None"
      by (auto simp: completion_def split: option.splits)
    then show ?thesis
      using that by (auto simp: getitem2_square completion_def)
  qed
  have rowv: "try_map (\<lambda>j. bind_res (getitem2 (square_of n) i j) (evaluate_as_long m))
        (py_range 0 n) = Inr (map (\<lambda>j. completion m (cell_name i j)) (py_range 0 n))"
    if "i \<in> set (py_range 0 n)" for i
    by (rule try_map_Inr_map) (rule cellv [OF that])
  show ?thesis
    unfolding magic_square_solution_def
    by (rule try_map_Inr_map) (rule rowv)
qed

lemma complete_magic_square_sat:
  assumes sound: "model_sound s"
    and cs: "magic_constraints n = Inr cs"
    and gs: "incomplete_square_constraints (square_of n) n isq = Inr gs"
    and chk: "check s (solver w @ cs @ gs) = sat"
  shows "fst (complete_magic_square s n isq w) =
    Inr (Some (map (\<lambda>i. map (\<lambda>j. completion (model s (solver w @ cs @ gs)) (cell_name i j))
                 (py_range 0 n)) (py_range 0 n)))"
proof -
  have "satisfies (completion (model s (solver w @ cs @ gs))) (solver w @ cs @ gs)"
    using sound chk unfolding model_sound_def by blast
  then have "satisfies (completion (model s (solver w @ cs @ gs))) cs"
    by simp
  from magic_square_solution_sound [OF cs this] show ?thesis
    using cs gs chk by (simp add: complete_magic_square_def solver_add_def Let_def)
qed

lemma wf_rows:
  assumes "length isq = nat n" "\<forall>row \<in> set isq. length row = nat n"
  shows "nat n \<le> length isq" "\<forall>row \<in> set (take (nat n) isq). nat n \<le> length row"
  using assms by (auto dest: in_set_takeD)

lemma py_range_0_2: "py_range 0 2 = [0, 1]"
  by (simp add: py_range_def upto.simps)

lemma contradictory_row_unsat:
  assumes cs: "magic_constraints 2 = Inr cs"
    and gs: "incomplete_square_constraints (square_of 2) 2 [[1, 2], [0, 0]] = Inr gs"
  shows "\<not> satisfiable (fs @ cs @ gs)"
proof
  assume "satisfiable (fs @ cs @ gs)"
  then obtain a where "satisfies a (fs @ cs @ gs)"
    unfolding satisfiable_def ..
  then have sat: "satisfies a cs" and g: "satisfies a gs"
    by simp_all
  note D = magic_constraintsD [OF cs sat]
  have g00: "a (cell_name 0 0) = 1"
    using incomplete_square_constraintsD [OF gs g, of 0 0] by simp
  have g01: "a (cell_name 0 1) = 2"
    using incomplete_square_constraintsD [OF gs g, of 0 1] by simp
  have col0: "a (cell_name 0 0) + a (cell_name 1 0) = a (cell_name 0 0) + a (cell_name 0 1)"
    using D(3) [of 0] by (simp add: py_range_0_2)
  have row1: "a (cell_name 1 0) + a (cell_name 1 1) = a (cell_name 0 0) + a (cell_name 0 1)"
    using D(2) [of 1] by (simp add: py_range_0_2)
  have diag: "a (cell_name 0 0) + a (cell_name 1 1) = a (cell_name 0 0) + a (cell_name 0 1)"
    using D(4) by (simp add: py_range_0_2)
  from g00 g01 col0 row1 diag show False by simp
qed

lemma satisfying_grid_sums:
  assumes n: "0 < grid_size" and cs: "magic_constraints grid_size = Inr cs"
    and sat: "satisfies a cs"
    and sol: "sol = map (\<lambda>i. map (\<lambda>j. a (cell_name i j)) (py_range 0 grid_size))
                  (py_range 0 grid_size)"
  shows "length sol = nat grid_size \<and> 0 < length sol
    \<and> (\<forall>i < length sol. row_sum sol i = row_sum sol 0)
    \<and> (\<forall>j < length sol. column_sum sol j = row_sum sol 0)
    \<and> diagonal_sum sol = row_sum sol 0
    \<and> antidiagonal_sum sol = row_sum sol 0"
proof -
  note D = magic_constraintsD [OF cs sat]
  have len: "length sol = nat grid_size"
    by (rule solution_nth(1) [OF sol])
  have r0: "row_sum sol 0 = (\<Sum>j\<leftarrow>py_range 0 grid_size. a (cell_name 0 j))"
    using grid_sums(1) [OF sol, of 0] n by simp
  have rows: "row_sum sol i = row_sum sol 0" if "i < length sol" for i
  proof -
    have "row_sum sol i = (\<Sum>j\<leftarrow>py_range 0 grid_size. a (cell_name (int i) j))"
      using that len by (simp add: grid_sums(1) [OF sol])
    also have "\<dots> = (\<Sum>j\<leftarrow>py_range 0 grid_size. a (cell_name 0 j))"
      using that len by (intro D(2)) simp_all
    finally show ?thesis by (simp only: r0)
  qed
  have cols: "column_sum sol j = row_sum sol 0" if "j < length sol" for j
  proof -
    have "column_sum sol j = (\<Sum>i\<leftarrow>py_range 0 grid_size. a (cell_name i (int j)))"
      using that len by (simp add: grid_sums(2) [OF sol])
    also have "\<dots> = (\<Sum>j\<leftarrow>py_range 0 grid_size. a (cell_name 0 j))"
      using that len by (intro D(3)) simp_all
    finally show ?thesis by (simp only: r0)
  qed
  have d1: "diagonal_sum sol = row_sum sol 0"
    by (simp only: r0 grid_sums(3) [OF sol] D(4))
  have d2: "antidiagonal_sum sol = row_sum sol 0"
    by (simp only: r0 grid_sums(4) [OF sol] D(5))
  have pos: "0 < length sol"
    using len n by simp
  from len pos rows cols d1 d2 show ?thesis by blast
qed

lemma check_sat_of_decides:
  assumes "decides s fs" "satisfiable fs"
  shows "check s fs = sat"
  using assms unfolding decides_def by (cases "check s fs") simp_all

lemma returned_satisfiable:
  assumes "model_sound s"
    and "fst (complete_magic_square s n isq w) = Inr (Some sol)"
  shows "check s (solver (snd (complete_magic_square s n isq w))) = sat"
    and "satisfiable (solver (snd (complete_magic_square s n isq w)))"
proof -
  from assms(2) obtain cs gs where
    cs: "magic_constraints n = Inr cs" and
    gs: "incomplete_square_constraints (square_of n) n isq = Inr gs" and
    chk: "check s (solver w @ cs @ gs) = sat"
    by (rule complete_magic_square_Some)
  show "check s (solver (snd (complete_magic_square s n isq w))) = sat"
    unfolding solver_after [OF cs gs] by (rule chk)
  have "satisfies (completion (model s (solver w @ cs @ gs))) (solver w @ cs @ gs)"
    using assms(1) chk unfolding model_sound_def by blast
  then show "satisfiable (solver (snd (complete_magic_square s n isq w)))"
    unfolding solver_after [OF cs gs] satisfiable_def by blast
qed

lemma solver_after_any:
  "solver (snd (complete_magic_square s n isq w)) = solver (snd (complete_magic_square s' n isq w))"
  by (simp add: complete_magic_square_def solver_add_def print_def Let_def split: sum.splits)

lemma conflicting_givens_unsat:
  assumes g1: "incomplete_square_constraints (square_of 2) 2 [[1, 0], [0, 0]] = Inr gs1"
    and g2: "incomplete_square_constraints (square_of 2) 2 [[2, 0], [0, 0]] = Inr gs2"
  shows "\<not> satisfiable ((fs @ cs @ gs1) @ cs' @ gs2)"
proof
  assume "satisfiable ((fs @ cs @ gs1) @ cs' @ gs2)"
  then obtain a where "satisfies a ((fs @ cs @ gs1) @ cs' @ gs2)"
    unfolding satisfiable_def ..
  then have s1: "satisfies a gs1" and s2: "satisfies a gs2"
    by simp_all
  have "a (cell_name 0 0) = 1"
    using incomplete_square_constraintsD [OF g1 s1, of 0 0] by simp
  moreover have "a (cell_name 0 0) = 2"
    using incomplete_square_constraintsD [OF g2 s2, of 0 0] by simp
  ultimately show False by simp
qed

lemma incomplete_square_constraints_Inr:
  assumes gs: "incomplete_square_constraints (square_of n) n isq = Inr gs"
  shows "gs = map (\<lambda>(i, j). If_then (BoolVal (isq ! nat i ! nat j \<noteq> 0))
                 (Eq (cell i j) (IntVal (isq ! nat i ! nat j))) (BoolVal True))
           (positions n)"
  using gs unfolding incomplete_square_constraints_def
proof (rule try_map_Inr_eq_map)
  fix x y
  assume x: "x \<in> set (positions n)"
    and y: "(case x of (i, j) \<Rightarrow>
         bind_res (getitem2 isq i j) (\<lambda>g.
         bind_res (getitem2 (square_of n) i j) (\<lambda>x.
         bind_res (getitem2 isq i j) (\<lambda>g'.
         Inr (If_then (BoolVal (g \<noteq> 0)) (Eq x (IntVal g')) (BoolVal True)))))) = Inr y"
  obtain i j where ij: "x = (i, j)" by (cases x)
  with x have r: "0 \<le> i" "i < n" "0 \<le> j" "j < n" by simp_all
  from y obtain g where g: "getitem2 isq i j = Inr g"
    and yeq: "y = If_then (BoolVal (g \<noteq> 0)) (Eq (cell i j) (IntVal g)) (BoolVal True)"
    using r by (auto simp: ij bind_res_eq_Inr getitem2_square)
  have "g = isq ! nat i ! nat j"
    using getitem2_Inr [OF g r(1) r(3)] by simp
  then show "y = (case x of (i, j) \<Rightarrow> If_then (BoolVal (isq ! nat i ! nat j \<noteq> 0))
                 (Eq (cell i j) (IntVal (isq ! nat i ! nat j))) (BoolVal True))"
    by (simp add: ij yeq)
qed


lemma length_positions: "length (positions n) = nat n * nat n"
  by (simp add: positions_def length_concat comp_def sum_list_triv)

lemma length_magic_constraints:
  assumes "magic_constraints n = Inr cs"
  shows "length cs = nat n * nat n + 3 * nat n + 2 + nat (n - 2)"
proof -
  have n: "0 < n"
    using assms magic_constraints_nonpos [of n] by (cases "0 < n") simp_all
  from assms show ?thesis
    unfolding magic_constraints_pos [OF n] by (auto simp: length_positions)
qed

lemma length_incomplete_square_constraints:
  assumes "incomplete_square_constraints (square_of n) n isq = Inr gs"
  shows "length gs = nat n * nat n"
  unfolding incomplete_square_constraints_Inr [OF assms] by (simp add: length_positions)

lemma solver_after_exact:
  "solver (snd (complete_magic_square s n isq w)) =
   solver w @ (case magic_constraints n of
                 Inl e \<Rightarrow> []
               | Inr cs \<Rightarrow> cs @ (case incomplete_square_constraints (square_of n) n isq of
                                  Inl e \<Rightarrow> []
                                | Inr gs \<Rightarrow> gs))"
  by (simp add: complete_magic_square_def solver_add_def print_def Let_def split: sum.splits)

text \<open>The run the source records: the solver proposes the recorded model.\<close>

lemmas enc_defs = magic_constraints_def constraints_def magic_constant_def row_constraints_def
  column_constraints_def diagonal_constraints_def associative_row_constraints_def
  associative_column_constraints_def square_of_def positions_def py_range_def upto.simps
  getitem2_def getitem_def bind_res_def cell_name_def str_int_def str_nat.simps
  associative_sum_def incomplete_square_constraints_def

lemma recorded_run:
  "fst (complete_magic_square (replay recorded_model) 4 incomplete_square_main fresh)
   = Inr (Some recorded_output)"
  by (simp add: complete_magic_square_def enc_defs satisfies_def completion_def recorded_model_def
      replay_def incomplete_square_main_def fresh_def solver_add_def magic_square_solution_def
      recorded_output_def print_def Let_def)

lemma recorded_sums:
  "row_sum recorded_output 0 = 22" "row_sum recorded_output 3 = 22"
  "column_sum recorded_output 2 = 22"
  "diagonal_sum recorded_output = 22" "antidiagonal_sum recorded_output = 22"
  by (simp_all add: row_sum_def column_sum_def diagonal_sum_def antidiagonal_sum_def
      recorded_output_def upt_rec)

section \<open>Properties of a returned grid\<close>

text \<open>
  C1. Whenever \<open>complete_magic_square\<close> returns a grid, every row sum, every column
  sum and both main-diagonal sums of that grid equal one value, the sum of row 0. The
  solver is assumed sound: the model of a \<open>sat\<close> verdict satisfies the assertions.
\<close>

theorem magic_sums_equal:
  assumes "model_sound s"
    and "fst (complete_magic_square s grid_size incomplete_square w) = Inr (Some sol)"
  shows "length sol = nat grid_size \<and> 0 < length sol
    \<and> (\<forall>i < length sol. row_sum sol i = row_sum sol 0)
    \<and> (\<forall>j < length sol. column_sum sol j = row_sum sol 0)
    \<and> diagonal_sum sol = row_sum sol 0
    \<and> antidiagonal_sum sol = row_sum sol 0"
proof -
  from assms obtain a cs where
    "0 < grid_size" and "magic_constraints grid_size = Inr cs" and "satisfies a cs" and
    "sol = map (\<lambda>i. map (\<lambda>j. a (cell_name i j)) (py_range 0 grid_size))
                  (py_range 0 grid_size)"
    by (rule returned_solution)
  then show ?thesis
    by (rule satisfying_grid_sums)
qed

theorem magic_sums_equal_witness:
  "model_sound (replay recorded_model)
   \<and> fst (complete_magic_square (replay recorded_model) 4 incomplete_square_main fresh)
       = Inr (Some recorded_output)
   \<and> length recorded_output = 4
   \<and> row_sum recorded_output 3 = row_sum recorded_output 0
   \<and> column_sum recorded_output 2 = row_sum recorded_output 0
   \<and> diagonal_sum recorded_output = row_sum recorded_output 0
   \<and> antidiagonal_sum recorded_output = row_sum recorded_output 0"
proof -
  note T = magic_sums_equal [OF model_sound_replay recorded_run]
  have len: "length recorded_output = 4"
    by (simp add: recorded_output_def)
  from T have "3 < length recorded_output \<longrightarrow> row_sum recorded_output 3 = row_sum recorded_output 0"
    by blast
  then have r: "row_sum recorded_output 3 = row_sum recorded_output 0"
    by (simp add: len)
  from T have "2 < length recorded_output \<longrightarrow> column_sum recorded_output 2 = row_sum recorded_output 0"
    by blast
  then have c: "column_sum recorded_output 2 = row_sum recorded_output 0"
    by (simp add: len)
  from T have d: "diagonal_sum recorded_output = row_sum recorded_output 0"
    and ad: "antidiagonal_sum recorded_output = row_sum recorded_output 0"
    by blast+
  from model_sound_replay recorded_run len r c d ad show ?thesis
    by blast
qed

text \<open>
  C2. Whenever \<open>complete_magic_square\<close> returns a grid, every position of the
  \<open>grid_size\<close> by \<open>grid_size\<close> square whose input entry is not zero holds that
  entry in the returned grid (and the position exists in the input).
\<close>

theorem given_cells_preserved:
  assumes "model_sound s"
    and "fst (complete_magic_square s grid_size incomplete_square w) = Inr (Some sol)"
    and "i < nat grid_size" and "j < nat grid_size"
    and "incomplete_square ! i ! j \<noteq> 0"
  shows "i < length incomplete_square \<and> j < length (incomplete_square ! i)
    \<and> sol ! i ! j = incomplete_square ! i ! j"
proof -
  from assms(1,2) obtain a gs where
    gs: "incomplete_square_constraints (square_of grid_size) grid_size incomplete_square = Inr gs"
    and sat: "satisfies a gs"
    and sol: "sol = map (\<lambda>i. map (\<lambda>j. a (cell_name i j)) (py_range 0 grid_size))
                  (py_range 0 grid_size)"
    by (rule returned_solution)
  have "nat (int i) < length incomplete_square
      \<and> nat (int j) < length (incomplete_square ! nat (int i))
      \<and> (incomplete_square ! nat (int i) ! nat (int j) \<noteq> 0 \<longrightarrow>
           a (cell_name (int i) (int j)) = incomplete_square ! nat (int i) ! nat (int j))"
    using assms(3,4) by (intro incomplete_square_constraintsD [OF gs sat]) simp_all
  moreover have "sol ! i ! j = a (cell_name (int i) (int j))"
    using assms(3,4) by (rule solution_nth(3) [OF sol])
  ultimately show ?thesis
    using assms(5) by simp
qed

theorem given_cells_preserved_witness:
  "model_sound (replay recorded_model)
   \<and> fst (complete_magic_square (replay recorded_model) 4 incomplete_square_main fresh)
       = Inr (Some recorded_output)
   \<and> (1::nat) < nat 4
   \<and> incomplete_square_main ! 1 ! 1 \<noteq> 0
   \<and> recorded_output ! 1 ! 1 = incomplete_square_main ! 1 ! 1"
proof -
  have lt: "(1::nat) < nat 4" by simp
  have given: "incomplete_square_main ! 1 ! 1 \<noteq> 0"
    by (simp add: incomplete_square_main_def)
  note T = given_cells_preserved [OF model_sound_replay recorded_run lt lt given]
  from T have "recorded_output ! 1 ! 1 = incomplete_square_main ! 1 ! 1"
    by (rule conjunct2 [THEN conjunct2])
  with model_sound_replay recorded_run lt given show ?thesis
    by blast
qed

text \<open>
  C3. Whenever \<open>complete_magic_square\<close> returns a grid, it has \<open>grid_size\<close> rows of
  \<open>grid_size\<close> cells and every cell lies between 1 and the square of \<open>grid_size\<close>.
\<close>

theorem cells_in_range:
  assumes "model_sound s"
    and "fst (complete_magic_square s grid_size incomplete_square w) = Inr (Some sol)"
  shows "length sol = nat grid_size \<and> (\<forall>row \<in> set sol. length row = nat grid_size
    \<and> (\<forall>x \<in> set row. 1 \<le> x \<and> x \<le> grid_size ^ 2))"
proof -
  from assms obtain a cs where
    cs: "magic_constraints grid_size = Inr cs" and sat: "satisfies a cs" and
    sol: "sol = map (\<lambda>i. map (\<lambda>j. a (cell_name i j)) (py_range 0 grid_size))
                  (py_range 0 grid_size)"
    by (rule returned_solution)
  have cellb: "1 \<le> a (cell_name i j) \<and> a (cell_name i j) \<le> grid_size ^ 2"
    if "i \<in> set (py_range 0 grid_size)" "j \<in> set (py_range 0 grid_size)" for i j
    using that by (intro magic_constraintsD(1) [OF cs sat]) simp_all
  have "length row = nat grid_size \<and> (\<forall>x \<in> set row. 1 \<le> x \<and> x \<le> grid_size ^ 2)"
    if "row \<in> set sol" for row
  proof -
    from that obtain i where i: "i \<in> set (py_range 0 grid_size)"
      and row: "row = map (\<lambda>j. a (cell_name i j)) (py_range 0 grid_size)"
      unfolding sol by auto
    show ?thesis
      unfolding row using cellb [OF i] by auto
  qed
  with solution_nth(1) [OF sol] show ?thesis by blast
qed

theorem cells_in_range_witness:
  "model_sound (replay recorded_model)
   \<and> fst (complete_magic_square (replay recorded_model) 4 incomplete_square_main fresh)
       = Inr (Some recorded_output)
   \<and> length recorded_output = nat 4
   \<and> 1 \<le> recorded_output ! 2 ! 1 \<and> recorded_output ! 2 ! 1 \<le> 4 ^ 2"
proof -
  note T = cells_in_range [OF model_sound_replay recorded_run]
  have row: "recorded_output ! 2 \<in> set recorded_output"
    and x: "recorded_output ! 2 ! 1 \<in> set (recorded_output ! 2)"
    by (simp_all add: recorded_output_def)
  from T row x have "1 \<le> recorded_output ! 2 ! 1 \<and> recorded_output ! 2 ! 1 \<le> 4 ^ 2"
    by blast
  with T model_sound_replay recorded_run show ?thesis
    by blast
qed






text \<open>
  C10. For a size of at least 1 and a grid of that many rows and columns, the call
  raises nothing: the constraints are built (the associative-column family is empty for
  the sizes 1 and 2), the result is \<open>None\<close> when the verdict is not \<open>sat\<close>, and a grid
  of \<open>grid_size\<close> rows of \<open>grid_size\<close> cells when it is: no cell is left
  unbound by the model, since the model satisfies the bound 1 asserted for every cell.
  The solver is assumed to return and to be sound.
\<close>

theorem no_exception:
  assumes "1 \<le> grid_size"
    and "length incomplete_square = nat grid_size"
    and "\<forall>row \<in> set incomplete_square. length row = nat grid_size"
    and "model_sound s"
  shows "(\<exists>cs. magic_constraints grid_size = Inr cs)
    \<and> (grid_size \<le> 2 \<longrightarrow>
         associative_column_constraints (square_of grid_size) grid_size = Inr [])
    \<and> ((fst (complete_magic_square s grid_size incomplete_square w) = Inr None
         \<and> check s (solver (snd (complete_magic_square s grid_size incomplete_square w))) \<noteq> sat)
       \<or> (\<exists>sol. fst (complete_magic_square s grid_size incomplete_square w) = Inr (Some sol)
         \<and> check s (solver (snd (complete_magic_square s grid_size incomplete_square w))) = sat
         \<and> length sol = nat grid_size
         \<and> (\<forall>row \<in> set sol. length row = nat grid_size)))"
proof -
  have n: "0 < grid_size" using assms(1) by simp
  obtain cs where cs: "magic_constraints grid_size = Inr cs"
    using magic_constraints_pos [OF n] by blast
  obtain gs where
    gs: "incomplete_square_constraints (square_of grid_size) grid_size incomplete_square = Inr gs"
    using incomplete_square_constraints_wf [OF wf_rows [OF assms(2,3)]] by blast
  note after = solver_after [OF cs gs, of s w]
  have col: "grid_size \<le> 2 \<longrightarrow>
      associative_column_constraints (square_of grid_size) grid_size = Inr []"
    by (simp add: associative_column_constraints_square py_range_def)
  have res: "(fst (complete_magic_square s grid_size incomplete_square w) = Inr None
         \<and> check s (solver w @ cs @ gs) \<noteq> sat)
       \<or> (\<exists>sol. fst (complete_magic_square s grid_size incomplete_square w) = Inr (Some sol)
         \<and> check s (solver w @ cs @ gs) = sat
         \<and> length sol = nat grid_size
         \<and> (\<forall>row \<in> set sol. length row = nat grid_size))"
  proof (cases "check s (solver w @ cs @ gs) = sat")
    case True
    let ?sol = "map (\<lambda>i. map (\<lambda>j. completion (model s (solver w @ cs @ gs)) (cell_name i j))
                 (py_range 0 grid_size)) (py_range 0 grid_size)"
    have "fst (complete_magic_square s grid_size incomplete_square w) = Inr (Some ?sol)"
      using assms(4) cs gs True by (rule complete_magic_square_sat)
    moreover have "length ?sol = nat grid_size" by simp
    moreover have "\<forall>row \<in> set ?sol. length row = nat grid_size" by auto
    ultimately show ?thesis using True by blast
  next
    case False
    then show ?thesis
      using complete_magic_square_not_sat [OF cs gs False] by simp
  qed
  from cs col res show ?thesis
    unfolding after by blast
qed

lemma run_1:
  "fst (complete_magic_square (replay model_1) 1 [[0]] fresh) = Inr (Some [[1]])"
  by (simp add: complete_magic_square_def enc_defs satisfies_def completion_def model_1_def
      replay_def fresh_def solver_add_def magic_square_solution_def print_def Let_def)

theorem no_exception_witness:
  "(1::int) \<le> 1 \<and> length [[0::int]] = nat 1 \<and> list_all (\<lambda>row. length row = nat 1) [[0::int]]
   \<and> model_sound (replay model_1)
   \<and> associative_column_constraints (square_of 1) 1 = Inr []
   \<and> fst (complete_magic_square (replay model_1) 1 [[0]] fresh) = Inr (Some [[1]])"
proof -
  have a1: "(1::int) \<le> 1" and a2: "length [[0::int]] = nat 1"
    and a3: "\<forall>row \<in> set [[0::int]]. length row = nat 1"
    by simp_all
  note T = no_exception [OF a1 a2 a3 model_sound_replay, of model_1 fresh]
  from T have "associative_column_constraints (square_of 1) 1 = Inr []"
    by simp
  with a1 a2 model_sound_replay [of model_1] run_1 show ?thesis
    by simp
qed

text \<open>
  C7. When the assertions are unsatisfiable, \<open>complete_magic_square\<close> returns \<open>None\<close>
  and raises nothing, and the script then prints the one line
  \<^verbatim>\<open>No solution found for {grid_size}x{grid_size} Magic Square.\<close>
\<close>

theorem unsatisfiable_no_solution:
  assumes "model_sound s"
    and "1 \<le> grid_size"
    and "length incomplete_square = nat grid_size"
    and "\<forall>row \<in> set incomplete_square. length row = nat grid_size"
    and "\<not> satisfiable (solver (snd (complete_magic_square s grid_size incomplete_square w)))"
  shows "fst (complete_magic_square s grid_size incomplete_square w) = Inr None
    \<and> fst (script s grid_size incomplete_square w) = Inr ()
    \<and> stdout (snd (script s grid_size incomplete_square w)) =
        stdout w @ [''No solution found for '' @ str_int grid_size @ ''x''
                     @ str_int grid_size @ '' Magic Square.'']"
proof -
  have n: "0 < grid_size" using assms(2) by simp
  obtain cs where cs: "magic_constraints grid_size = Inr cs"
    using magic_constraints_pos [OF n] by blast
  obtain gs where
    gs: "incomplete_square_constraints (square_of grid_size) grid_size incomplete_square = Inr gs"
    using incomplete_square_constraints_wf [OF wf_rows [OF assms(3,4)]] by blast
  have "\<not> satisfiable (solver w @ cs @ gs)"
    using assms(5) unfolding solver_after [OF cs gs] .
  with assms(1) cs gs
  have "complete_magic_square s grid_size incomplete_square w
      = (Inr None, w\<lparr>solver := solver w @ cs @ gs\<rparr>)"
    by (rule complete_magic_square_unsatisfiable)
  then show ?thesis
    by (simp add: script_def print_def)
qed

lemma contradictory_run:
  "fst (complete_magic_square (replay []) 2 [[1, 2], [0, 0]] fresh) = Inr None"
  "stdout (snd (script (replay []) 2 [[1, 2], [0, 0]] fresh))
     = [''No solution found for 2x2 Magic Square.'']"
  by (simp_all add: script_def complete_magic_square_def enc_defs satisfies_def completion_def
      replay_def fresh_def solver_add_def print_def Let_def)

lemma contradictory_unsat:
  "\<not> satisfiable (solver (snd (complete_magic_square s 2 [[1, 2], [0, 0]] fresh)))"
proof -
  obtain cs where cs: "magic_constraints 2 = Inr cs"
    using magic_constraints_pos [of 2] by simp
  obtain gs where
    gs: "incomplete_square_constraints (square_of 2) 2 [[1, 2], [0, 0]] = Inr gs"
    using incomplete_square_constraints_wf [of 2 "[[1, 2], [0, 0]]"] by simp
  show ?thesis
    unfolding solver_after [OF cs gs] by (rule contradictory_row_unsat [OF cs gs])
qed

theorem unsatisfiable_no_solution_witness:
  "model_sound (replay [])
   \<and> (1::int) \<le> 2 \<and> length [[1, 2], [0, 0::int]] = nat 2
   \<and> list_all (\<lambda>row. length row = nat 2) [[1, 2], [0, 0::int]]
   \<and> \<not> satisfiable (solver (snd (complete_magic_square (replay []) 2 [[1, 2], [0, 0]] fresh)))
   \<and> fst (complete_magic_square (replay []) 2 [[1, 2], [0, 0]] fresh) = Inr None
   \<and> stdout (snd (script (replay []) 2 [[1, 2], [0, 0]] fresh))
       = [''No solution found for 2x2 Magic Square.'']"
proof -
  have a2: "(1::int) \<le> 2" and a3: "length [[1, 2], [0, 0::int]] = nat 2"
    and a4: "\<forall>row \<in> set [[1, 2], [0, 0::int]]. length row = nat 2"
    by simp_all
  note T = unsatisfiable_no_solution [OF model_sound_replay a2 a3 a4 contradictory_unsat, of "[]"]
  have "str_int 2 = ''2''"
    by (simp add: str_int_def str_nat.simps)
  with T have "fst (complete_magic_square (replay []) 2 [[1, 2], [0, 0]] fresh) = Inr None"
    and "stdout (snd (script (replay []) 2 [[1, 2], [0, 0]] fresh))
       = [''No solution found for 2x2 Magic Square.'']"
    by (simp_all add: fresh_def)
  with model_sound_replay a2 a3 contradictory_unsat [of "replay []"] show ?thesis
    by simp
qed

theorem unsatisfiable_no_solution_counterexample:
  "\<not> satisfiable (solver (snd (complete_magic_square (replay []) 2 [[1, 2], [0, 0]] fresh)))
   \<and> fst (complete_magic_square (replay []) 2 [[1, 2], [0, 0]] fresh) = Inr None
   \<and> stdout (snd (script (replay []) 2 [[1, 2], [0, 0]] fresh))
       = [''No solution found for 2x2 Magic Square.'']
   \<and> ''No solution found for 2x2 Magic Square.'' \<noteq> ''no solution found for 2x2''"
  using contradictory_unsat [of "replay []"] contradictory_run by simp

text \<open>
  C6. For size 4 and the grid of the module, from a fresh solver, the call returns a
  grid of 4 rows of 4 cells with 1 at row 0, column 2, 5 at row 1, column 1, and 6 at
  row 3, column 3, whose four row sums and two main-diagonal sums are equal. The solver is
  assumed sound and to decide the assertions of this call.
\<close>

theorem reference_scenario:
  assumes "model_sound s"
    and "decides s (solver (snd (complete_magic_square s 4 incomplete_square_main fresh)))"
  shows "\<exists>sol. fst (complete_magic_square s 4 incomplete_square_main fresh) = Inr (Some sol)
    \<and> length sol = 4 \<and> (\<forall>row \<in> set sol. length row = 4)
    \<and> sol ! 0 ! 2 = 1 \<and> sol ! 1 ! 1 = 5 \<and> sol ! 3 ! 3 = 6
    \<and> row_sum sol 1 = row_sum sol 0 \<and> row_sum sol 2 = row_sum sol 0
    \<and> row_sum sol 3 = row_sum sol 0
    \<and> diagonal_sum sol = row_sum sol 0 \<and> antidiagonal_sum sol = row_sum sol 0"
proof -
  obtain cs where cs: "magic_constraints 4 = Inr cs"
    using magic_constraints_pos [of 4] by simp
  obtain gs where
    gs: "incomplete_square_constraints (square_of 4) 4 incomplete_square_main = Inr gs"
    using incomplete_square_constraints_wf [of 4 incomplete_square_main]
    by (simp add: incomplete_square_main_def)
  let ?fs = "solver fresh @ cs @ gs"
  have "satisfiable (solver (snd (complete_magic_square s 4 incomplete_square_main fresh)))"
    using returned_satisfiable(2) [OF model_sound_replay recorded_run]
    by (simp only: solver_after_any [of s _ _ _ "replay recorded_model"])
  with assms(2)
  have "check s (solver (snd (complete_magic_square s 4 incomplete_square_main fresh))) = sat"
    by (rule check_sat_of_decides)
  then have chk: "check s ?fs = sat"
    unfolding solver_after [OF cs gs] .
  let ?a = "completion (model s ?fs)"
  define sol where
    "sol = map (\<lambda>i. map (\<lambda>j. ?a (cell_name i j)) (py_range 0 4)) (py_range 0 4)"
  have ret: "fst (complete_magic_square s 4 incomplete_square_main fresh) = Inr (Some sol)"
    unfolding sol_def using assms(1) cs gs chk by (rule complete_magic_square_sat)
  have "satisfies ?a ?fs"
    using assms(1) chk unfolding model_sound_def by blast
  then have sat: "satisfies ?a cs" and given: "satisfies ?a gs"
    by simp_all
  have sums: "length sol = nat 4 \<and> 0 < length sol
    \<and> (\<forall>i < length sol. row_sum sol i = row_sum sol 0)
    \<and> (\<forall>j < length sol. column_sum sol j = row_sum sol 0)
    \<and> diagonal_sum sol = row_sum sol 0
    \<and> antidiagonal_sum sol = row_sum sol 0"
    using _ cs sat sol_def by (rule satisfying_grid_sums) simp
  then have len: "length sol = 4" by simp
  from sums have allrows: "\<And>i. i < length sol \<Longrightarrow> row_sum sol i = row_sum sol 0"
    by blast
  have rows: "row_sum sol 1 = row_sum sol 0" "row_sum sol 2 = row_sum sol 0"
    "row_sum sol 3 = row_sum sol 0"
    by (rule allrows, simp add: len)+
  have diags: "diagonal_sum sol = row_sum sol 0" "antidiagonal_sum sol = row_sum sol 0"
    using sums by blast+
  have widths: "\<forall>row \<in> set sol. length row = 4"
    unfolding sol_def by auto
  have c02: "sol ! 0 ! 2 = 1"
    using incomplete_square_constraintsD [OF gs given, of 0 2]
      solution_nth(3) [OF sol_def, of 0 2]
    by (simp add: incomplete_square_main_def)
  have c11: "sol ! 1 ! 1 = 5"
    using incomplete_square_constraintsD [OF gs given, of 1 1]
      solution_nth(3) [OF sol_def, of 1 1]
    by (simp add: incomplete_square_main_def)
  have c33: "sol ! 3 ! 3 = 6"
    using incomplete_square_constraintsD [OF gs given, of 3 3]
      solution_nth(3) [OF sol_def, of 3 3]
    by (simp add: incomplete_square_main_def)
  from ret len widths c02 c11 c33 rows diags show ?thesis
    by blast
qed

lemma decides_replay_recorded:
  "decides (replay recorded_model)
     (solver (snd (complete_magic_square (replay recorded_model) 4 incomplete_square_main fresh)))"
  unfolding decides_def
  by (simp add: returned_satisfiable(1) [OF model_sound_replay recorded_run])

theorem reference_scenario_witness:
  "model_sound (replay recorded_model)
   \<and> decides (replay recorded_model)
       (solver (snd (complete_magic_square (replay recorded_model) 4 incomplete_square_main fresh)))
   \<and> fst (complete_magic_square (replay recorded_model) 4 incomplete_square_main fresh)
       = Inr (Some recorded_output)
   \<and> recorded_output ! 0 ! 2 = 1 \<and> recorded_output ! 1 ! 1 = 5 \<and> recorded_output ! 3 ! 3 = 6
   \<and> row_sum recorded_output 3 = row_sum recorded_output 0
   \<and> diagonal_sum recorded_output = row_sum recorded_output 0
   \<and> antidiagonal_sum recorded_output = row_sum recorded_output 0"
proof -
  note T = reference_scenario [OF model_sound_replay decides_replay_recorded]
  then obtain sol where
    "fst (complete_magic_square (replay recorded_model) 4 incomplete_square_main fresh)
       = Inr (Some sol)"
    and props: "sol ! 0 ! 2 = 1" "sol ! 1 ! 1 = 5" "sol ! 3 ! 3 = 6"
      "row_sum sol 3 = row_sum sol 0"
      "diagonal_sum sol = row_sum sol 0" "antidiagonal_sum sol = row_sum sol 0"
    by blast
  then have "sol = recorded_output"
    using recorded_run by simp
  with props model_sound_replay decides_replay_recorded recorded_run
  show ?thesis
    by blast
qed

text \<open>
  C9. The assertions of a call stay in the solver. The solver a call leaves behind
  holds what it held before, followed by the constraints of the magic square and then
  the constraints of the given cells, as far as the call built them; for a size of at
  least 1 and a grid of that many rows and columns both lists are built and neither is
  empty. After a call of size 2 with 1 given at row 0, column 0, a second call of size 2
  with 2 given there returns \<open>None\<close>, although from a fresh solver its assertions are
  satisfiable and a solver that proposes the grid of twos returns that grid.
\<close>

theorem solver_state_leaks:
  assumes "model_sound s"
  shows "solver (snd (complete_magic_square s n isq w)) =
      solver w @ (case magic_constraints n of
                    Inl e \<Rightarrow> []
                  | Inr cs \<Rightarrow> cs @ (case incomplete_square_constraints (square_of n) n isq of
                                     Inl e \<Rightarrow> []
                                   | Inr gs \<Rightarrow> gs))
    \<and> (1 \<le> n \<and> length isq = nat n \<and> (\<forall>row \<in> set isq. length row = nat n) \<longrightarrow>
        (\<exists>cs gs. magic_constraints n = Inr cs
           \<and> incomplete_square_constraints (square_of n) n isq = Inr gs
           \<and> length cs = nat n * nat n + 3 * nat n + 2 + nat (n - 2)
           \<and> length gs = nat n * nat n
           \<and> solver (snd (complete_magic_square s n isq w)) = solver w @ cs @ gs))
    \<and> If_then (BoolVal True) (Eq (cell 0 0) (IntVal 1)) (BoolVal True)
        \<in> set (solver (snd (complete_magic_square s 2 [[1, 0], [0, 0]] fresh)))
    \<and> fst (complete_magic_square s 2 [[2, 0], [0, 0]]
             (snd (complete_magic_square s 2 [[1, 0], [0, 0]] fresh))) = Inr None
    \<and> satisfiable (solver (snd (complete_magic_square s 2 [[2, 0], [0, 0]] fresh)))
    \<and> fst (complete_magic_square (replay model_2) 2 [[2, 0], [0, 0]] fresh)
        = Inr (Some [[2, 2], [2, 2]])"
proof -
  have every: "1 \<le> n \<and> length isq = nat n \<and> (\<forall>row \<in> set isq. length row = nat n) \<longrightarrow>
        (\<exists>cs gs. magic_constraints n = Inr cs
           \<and> incomplete_square_constraints (square_of n) n isq = Inr gs
           \<and> length cs = nat n * nat n + 3 * nat n + 2 + nat (n - 2)
           \<and> length gs = nat n * nat n
           \<and> solver (snd (complete_magic_square s n isq w)) = solver w @ cs @ gs)"
  proof (intro impI, elim conjE)
    assume n: "1 \<le> n" and rows: "length isq = nat n"
      and cols: "\<forall>row \<in> set isq. length row = nat n"
    from n have "0 < n" by simp
    then obtain cs where cs: "magic_constraints n = Inr cs"
      using magic_constraints_pos [of n] by blast
    obtain gs where gs: "incomplete_square_constraints (square_of n) n isq = Inr gs"
      using incomplete_square_constraints_wf [OF wf_rows [OF rows cols]] by blast
    from cs gs length_magic_constraints [OF cs] length_incomplete_square_constraints [OF gs]
      solver_after [OF cs gs, of s w]
    show "\<exists>cs gs. magic_constraints n = Inr cs
           \<and> incomplete_square_constraints (square_of n) n isq = Inr gs
           \<and> length cs = nat n * nat n + 3 * nat n + 2 + nat (n - 2)
           \<and> length gs = nat n * nat n
           \<and> solver (snd (complete_magic_square s n isq w)) = solver w @ cs @ gs"
      by blast
  qed
  obtain cs where cs: "magic_constraints 2 = Inr cs"
    using magic_constraints_pos [of 2] by simp
  have pos: "(0, 0) \<in> set (positions 2)" by simp
  define F1 where "F1 = (\<lambda>(i, j). If_then (BoolVal ([[1, 0], [0, 0::int]] ! nat i ! nat j \<noteq> 0))
      (Eq (cell i j) (IntVal ([[1, 0], [0, 0]] ! nat i ! nat j))) (BoolVal True))"
  have g1: "incomplete_square_constraints (square_of 2) 2 [[1, 0], [0, 0]]
      = Inr (map F1 (positions 2))"
    unfolding F1_def by (rule incomplete_square_constraints_wf) simp_all
  obtain gs2 where g2: "incomplete_square_constraints (square_of 2) 2 [[2, 0], [0, 0]] = Inr gs2"
    using incomplete_square_constraints_wf [of 2 "[[2, 0], [0, 0]]"] by simp
  let ?w1 = "snd (complete_magic_square s 2 [[1, 0], [0, 0]] fresh)"
  have w1: "solver ?w1 = solver fresh @ cs @ map F1 (positions 2)"
    by (rule solver_after [OF cs g1])
  have "F1 (0, 0) \<in> F1 ` set (positions 2)"
    using pos by (rule imageI)
  then have mem: "If_then (BoolVal True) (Eq (cell 0 0) (IntVal 1)) (BoolVal True)
      \<in> set (solver ?w1)"
    unfolding w1 by (simp add: F1_def)
  have "\<not> satisfiable (solver ?w1 @ cs @ gs2)"
    unfolding w1 by (rule conflicting_givens_unsat [OF g1 g2])
  with assms cs g2
  have "complete_magic_square s 2 [[2, 0], [0, 0]] ?w1
      = (Inr None, ?w1\<lparr>solver := solver ?w1 @ cs @ gs2\<rparr>)"
    by (rule complete_magic_square_unsatisfiable)
  then have second: "fst (complete_magic_square s 2 [[2, 0], [0, 0]] ?w1) = Inr None"
    by simp
  have run: "fst (complete_magic_square (replay model_2) 2 [[2, 0], [0, 0]] fresh)
      = Inr (Some [[2, 2], [2, 2]])"
    by (simp add: complete_magic_square_def enc_defs satisfies_def completion_def model_2_def
        replay_def fresh_def solver_add_def magic_square_solution_def print_def Let_def)
  have alone: "satisfiable (solver (snd (complete_magic_square s 2 [[2, 0], [0, 0]] fresh)))"
    using returned_satisfiable(2) [OF model_sound_replay run]
    by (simp only: solver_after_any [of s _ _ _ "replay model_2"])
  from solver_after_exact [of s n isq w] every mem second alone run show ?thesis
    by (intro conjI)
qed

theorem solver_state_leaks_witness:
  "model_sound (replay model_2)
   \<and> (1::int) \<le> 2 \<and> length [[1, 0], [0, 0::int]] = nat 2
   \<and> list_all (\<lambda>row. length row = nat 2) [[1, 0], [0, 0::int]]
   \<and> length (solver (snd (complete_magic_square (replay model_2) 2 [[1, 0], [0, 0]] fresh))) = 16
   \<and> fst (complete_magic_square (replay model_2) 2 [[2, 0], [0, 0]]
            (snd (complete_magic_square (replay model_2) 2 [[1, 0], [0, 0]] fresh))) = Inr None
   \<and> fst (complete_magic_square (replay model_2) 2 [[2, 0], [0, 0]] fresh)
       = Inr (Some [[2, 2], [2, 2]])"
proof -
  note T = solver_state_leaks [OF model_sound_replay, of model_2 2 "[[1, 0], [0, 0]]" fresh]
  have a1: "(1::int) \<le> 2" and a2: "length [[1, 0], [0, 0::int]] = nat 2"
    and a3: "\<forall>row \<in> set [[1, 0], [0, 0::int]]. length row = nat 2"
    by simp_all
  from T a1 a2 a3 obtain cs gs where
    "length cs = nat 2 * nat 2 + 3 * nat 2 + 2 + nat (2 - 2)" "length gs = nat 2 * nat 2"
    "solver (snd (complete_magic_square (replay model_2) 2 [[1, 0], [0, 0]] fresh))
       = solver fresh @ cs @ gs"
    by blast
  then have len:
    "length (solver (snd (complete_magic_square (replay model_2) 2 [[1, 0], [0, 0]] fresh))) = 16"
    by (simp add: fresh_def)
  from T have "fst (complete_magic_square (replay model_2) 2 [[2, 0], [0, 0]]
            (snd (complete_magic_square (replay model_2) 2 [[1, 0], [0, 0]] fresh))) = Inr None"
    and "fst (complete_magic_square (replay model_2) 2 [[2, 0], [0, 0]] fresh)
       = Inr (Some [[2, 2], [2, 2]])"
    by blast+
  with model_sound_replay [of model_2] a1 a2 len show ?thesis
    by simp
qed




end
